theory Spec2Isabelle
  imports Main "HOL-Library.Sublist" "HOL-Library.Code_Target_Nat"
begin

section \<open>Dates\<close>

text \<open>
  A JavaScript \<open>Date\<close> is its time value: the milliseconds since the epoch, in UTC.
  Invalid dates (time value NaN) are outside the model. The local-time accessors
  (\<open>getFullYear\<close>, \<open>getHours\<close>, date-fns' \<open>startOfDay\<close>, ...) depend on the time
  zone of the browser; it is the parameter \<open>tz\<close>, the offset of local time from UTC in
  milliseconds (Asia/Seoul: \<open>32400000\<close>), taken as constant (no daylight saving).
\<close>

type_synonym date = int

definition msPerMinute :: int where
  "msPerMinute = 60000"

definition msPerHour :: int where
  "msPerHour = 3600000"

definition msPerDay :: int where
  "msPerDay = 86400000"

text \<open>
  The proleptic Gregorian date (year, month 1..12, day 1..31) of a day number counted
  from 1970-01-01, as ECMAScript's \<open>YearFromTime\<close>, \<open>MonthFromTime\<close> and
  \<open>DateFromTime\<close> compute it.
\<close>

definition civil_from_days :: "int \<Rightarrow> int \<times> int \<times> int" where
  "civil_from_days z0 =
     (let z = z0 + 719468;
          era = z div 146097;
          doe = z - era * 146097;
          yoe = (doe - doe div 1460 + doe div 36524 - doe div 146096) div 365;
          y = yoe + era * 400;
          doy = doe - (365 * yoe + yoe div 4 - yoe div 100);
          mp = (5 * doy + 2) div 153;
          d = doy - (153 * mp + 2) div 5 + 1;
          m = (if mp < 10 then mp + 3 else mp - 9)
      in ((if m \<le> 2 then y + 1 else y), m, d))"

definition getFullYear :: "int \<Rightarrow> date \<Rightarrow> int" where
  "getFullYear tz t = fst (civil_from_days ((t + tz) div msPerDay))"

definition getMonth :: "int \<Rightarrow> date \<Rightarrow> int" where
  "getMonth tz t = fst (snd (civil_from_days ((t + tz) div msPerDay))) - 1"

definition getDate :: "int \<Rightarrow> date \<Rightarrow> int" where
  "getDate tz t = snd (snd (civil_from_days ((t + tz) div msPerDay)))"

definition getHours :: "int \<Rightarrow> date \<Rightarrow> int" where
  "getHours tz t = ((t + tz) mod msPerDay) div msPerHour"

definition getMinutes :: "int \<Rightarrow> date \<Rightarrow> int" where
  "getMinutes tz t = ((t + tz) mod msPerHour) div msPerMinute"

definition startOfDay :: "int \<Rightarrow> date \<Rightarrow> date" where
  "startOfDay tz t = ((t + tz) div msPerDay) * msPerDay - tz"

definition addDays :: "date \<Rightarrow> int \<Rightarrow> date" where
  "addDays t n = t + n * msPerDay"

definition isSameDay :: "int \<Rightarrow> date \<Rightarrow> date \<Rightarrow> bool" where
  "isSameDay tz a b = (startOfDay tz a = startOfDay tz b)"

definition isWithinInterval :: "date \<Rightarrow> date \<Rightarrow> date \<Rightarrow> bool" where
  "isWithinInterval t start fin = (start \<le> t \<and> t \<le> fin)"

text \<open>\<open>today.setHours(0, 0, 0, 0)\<close>: local midnight of the day of \<open>t\<close>.\<close>

definition setHours0 :: "int \<Rightarrow> date \<Rightarrow> date" where
  "setHours0 tz t = startOfDay tz t"

text \<open>
  \<open>toISOString().split("T")[0]\<close>: the UTC date as \<open>YYYY-MM-DD\<close> (years 0 to 9999;
  other years print a sign and six digits).
\<close>

definition digit_char :: "int \<Rightarrow> char" where
  "digit_char n = char_of (48 + n)"

fun pad_digits :: "nat \<Rightarrow> int \<Rightarrow> string" where
  "pad_digits 0 n = []"
| "pad_digits (Suc w) n = pad_digits w (n div 10) @ [digit_char (n mod 10)]"

definition toISODate :: "date \<Rightarrow> string" where
  "toISODate t =
     (case civil_from_days (t div msPerDay) of (y, m, d) \<Rightarrow>
        (if 0 \<le> y \<and> y \<le> 9999 then pad_digits 4 y
         else if y < 0 then CHR ''-'' # pad_digits 6 (- y)
         else CHR ''+'' # pad_digits 6 y)
        @ ''-'' @ pad_digits 2 m @ ''-'' @ pad_digits 2 d)"

section \<open>Strings\<close>

text \<open>
  Strings are character lists. \<open>toLowerCase\<close> and \<open>trim\<close> are modelled on ASCII: the
  letters A to Z, and the ASCII white space characters.
\<close>

definition lower_char :: "char \<Rightarrow> char" where
  "lower_char c =
     (if (65::nat) \<le> of_char c \<and> of_char c \<le> (90::nat)
      then char_of (of_char c + (32::nat)) else c)"

definition toLowerCase :: "string \<Rightarrow> string" where
  "toLowerCase s = map lower_char s"

definition is_space :: "char \<Rightarrow> bool" where
  "is_space c = (of_char c \<in> {9::nat, 10, 11, 12, 13, 32})"

definition trim :: "string \<Rightarrow> string" where
  "trim s = rev (dropWhile is_space (rev (dropWhile is_space s)))"

text \<open>\<open>s.includes(q)\<close>: \<open>q\<close> occurs in \<open>s\<close> as a contiguous substring.\<close>

fun includes_str :: "string \<Rightarrow> string \<Rightarrow> bool" where
  "includes_str [] q = (q = [])"
| "includes_str (c # s) q = (prefix q (c # s) \<or> includes_str s q)"

section \<open>The data model (db)\<close>

datatype Priority = LOW | MEDIUM | HIGH

datatype RepeatType = NONE | DAILY | WEEKLY | MONTHLY | YEARLY | CUSTOM

record RepeatConfig =
  repeat_type :: RepeatType
  repeat_interval :: "int option"
  repeat_daysOfWeek :: "int list option"
  repeat_endDate :: "date option"
  repeat_occurrence :: "int option"

record SubTask =
  subtask_id :: string
  subtask_text :: string
  subtask_completed :: bool

record TodoNote =
  note_id :: string
  note_content :: string
  note_createdAt :: date
  note_updatedAt :: date

record TimeTracking =
  started :: "date option"
  stopped :: "date option"
  totalTime :: "int option"

text \<open>
  A todo as a JavaScript object: a field that the object may lack is an option, also
  where the interface \<open>Todo\<close> declares it required (\<open>tags\<close>, \<open>priority\<close>,
  \<open>subtasks\<close>, \<open>notes\<close>, \<open>createdAt\<close>), since the code tests for its absence and
  records written by an older schema version lack it.
\<close>

record Todo =
  todo_id :: "nat option"
  todo_text :: string
  description :: "string option"
  completed :: bool
  createdAt :: "date option"
  dueDate :: "date option"
  startDate :: "date option"
  endDate :: "date option"
  tags :: "string list option"
  priority :: "Priority option"
  repeat :: "RepeatConfig option"
  subtasks :: "SubTask list option"
  todo_notes :: "TodoNote list option"
  parentId :: "nat option"
  categoryId :: "string option"
  completedAt :: "date option"
  timeTracking :: "TimeTracking option"

record Category =
  category_id :: string
  category_name :: string
  category_color :: string
  category_parentId :: "string option"

datatype Theme = Light | Dark | System

record UserSettings =
  theme :: Theme
  language :: string
  dateFormat :: string
  timeFormat24h :: bool
  defaultViewCalendar :: bool
  defaultCalendarView :: string
  startOfWeek :: nat

record TodoTemplate =
  template_id :: string
  template_name :: string
  template_description :: "string option"
  todoData :: Todo

record StatCount =
  stat_completed :: nat
  stat_total :: nat

record StatsData =
  stats_id :: string
  stats_date :: date
  completedCount :: nat
  totalCount :: nat
  categoryStats :: "string \<rightharpoonup> StatCount"
  tagStats :: "string \<rightharpoonup> StatCount"

section \<open>The filter of the state container (todoStore)\<close>

datatype CompletionFilter = All | Completed | Active

text \<open>
  The callback of \<open>todos.filter\<close> in \<open>filterTodos\<close>: each criterion returns
  \<open>false\<close> early, in the order of the source.
\<close>

definition filterTodos_keep ::
  "int \<Rightarrow> date option \<Rightarrow> string list \<Rightarrow> string list \<Rightarrow> Priority option \<Rightarrow> string \<Rightarrow>
   CompletionFilter \<Rightarrow> Todo \<Rightarrow> bool" where
  "filterTodos_keep tz selectedDate selectedTags selectedCategories selectedPriority
     searchQuery completionFilter todo =
     (if (case selectedDate of
            None \<Rightarrow> False
          | Some sd \<Rightarrow>
              (case dueDate todo of
                 None \<Rightarrow> False
               | Some todoDate \<Rightarrow>
                   \<not> (getFullYear tz todoDate = getFullYear tz sd \<and>
                      getMonth tz todoDate = getMonth tz sd \<and>
                      getDate tz todoDate = getDate tz sd)))
      then False
      else if selectedTags \<noteq> [] \<and>
              (case tags todo of
                 None \<Rightarrow> True
               | Some ts \<Rightarrow> \<not> list_all (\<lambda>tag. tag \<in> set ts) selectedTags)
      then False
      else if selectedCategories \<noteq> [] \<and>
              (case categoryId todo of
                 None \<Rightarrow> True
               | Some c \<Rightarrow> c = [] \<or> c \<notin> set selectedCategories)
      then False
      else if (case selectedPriority of
                 None \<Rightarrow> False
               | Some p \<Rightarrow> priority todo \<noteq> Some p)
      then False
      else if trim searchQuery \<noteq> [] \<and>
              (let query = toLowerCase searchQuery;
                   textMatch = includes_str (toLowerCase (todo_text todo)) query;
                   descMatch = (case description todo of
                                  None \<Rightarrow> False
                                | Some d \<Rightarrow> d \<noteq> [] \<and> includes_str (toLowerCase d) query);
                   tagsMatch = (case tags todo of
                                  None \<Rightarrow> False
                                | Some ts \<Rightarrow>
                                    list_ex (\<lambda>tag. includes_str (toLowerCase tag) query) ts);
                   notesMatch = (case todo_notes todo of
                                   None \<Rightarrow> False
                                 | Some ns \<Rightarrow>
                                     list_ex (\<lambda>note. includes_str
                                                (toLowerCase (note_content note)) query) ns)
               in \<not> (textMatch \<or> descMatch \<or> tagsMatch \<or> notesMatch))
      then False
      else if completionFilter = Completed \<and> \<not> completed todo then False
      else if completionFilter = Active \<and> completed todo then False
      else True)"

definition filterTodos ::
  "int \<Rightarrow> Todo list \<Rightarrow> date option \<Rightarrow> string list \<Rightarrow> string list \<Rightarrow> Priority option \<Rightarrow>
   string \<Rightarrow> CompletionFilter \<Rightarrow> Todo list" where
  "filterTodos tz todos selectedDate selectedTags selectedCategories selectedPriority
     searchQuery completionFilter =
     filter (filterTodos_keep tz selectedDate selectedTags selectedCategories
               selectedPriority searchQuery completionFilter) todos"

section \<open>The record store (db)\<close>

text \<open>
  The IndexedDB database: the object store of todos (key path \<open>id\<close>, auto-increment)
  as an association list in key order, with the number its key generator issues next;
  the categories, the settings singleton, the templates and the statistics records.
  Numeric keys are natural numbers. A failed operation leaves the store as it was and
  its result is the error; an operation of several writes keeps the writes made before
  the failing one.
\<close>

record Store =
  todoStore :: "(nat \<times> Todo) list"
  todoKeyGen :: nat
  categoryStore :: "Category list"
  settingsStore :: "UserSettings option"
  templateStore :: "TodoTemplate list"
  statsStore :: "string \<rightharpoonup> StatsData"

datatype db_error = ConstraintError

fun put_sorted :: "nat \<Rightarrow> Todo \<Rightarrow> (nat \<times> Todo) list \<Rightarrow> (nat \<times> Todo) list" where
  "put_sorted k v [] = [(k, v)]"
| "put_sorted k v ((k', v') # r) =
     (if k < k' then (k, v) # (k', v') # r
      else if k = k' then (k, v) # r
      else (k', v') # put_sorted k v r)"

definition db_get_todo :: "Store \<Rightarrow> nat \<Rightarrow> Todo option" where
  "db_get_todo s k = map_of (todoStore s) k"

definition db_getAll_todos :: "Store \<Rightarrow> Todo list" where
  "db_getAll_todos s = map snd (todoStore s)"

text \<open>
  The key generator issues no key once its current number has passed \<open>2^53\<close>; the
  request then fails with a \<open>ConstraintError\<close>.
\<close>

definition maxGeneratedKey :: nat where
  "maxGeneratedKey = 9007199254740992"

text \<open>
  Storing a record under a key: the record replaces the one of that key, or is inserted
  in key order; a key at or above the generator's current number moves the generator
  past it (past \<open>2^53\<close> at most).
\<close>

definition db_store_todo :: "nat \<Rightarrow> Todo \<Rightarrow> Store \<Rightarrow> Store" where
  "db_store_todo k todo s =
     s\<lparr>todoStore := put_sorted k todo (todoStore s),
       todoKeyGen := (if todoKeyGen s \<le> min k maxGeneratedKey
                      then min k maxGeneratedKey + 1 else todoKeyGen s)\<rparr>"

text \<open>
  \<open>db.put(TODO_STORE, todo)\<close>: the key is the record's \<open>id\<close>; a record without one
  gets the next generated key, written into the stored record, unless the key generator
  is exhausted.
\<close>

definition db_put_todo :: "Todo \<Rightarrow> Store \<Rightarrow> (db_error + nat) \<times> Store" where
  "db_put_todo todo s =
     (case todo_id todo of
        Some k \<Rightarrow> (Inr k, db_store_todo k todo s)
      | None \<Rightarrow>
          (if maxGeneratedKey < todoKeyGen s then (Inl ConstraintError, s)
           else (let k = todoKeyGen s
                 in (Inr k, db_store_todo k (todo\<lparr>todo_id := Some k\<rparr>) s))))"

text \<open>\<open>db.add(TODO_STORE, todo)\<close>: as \<open>put\<close>, but a key already in the store is refused.\<close>

definition db_add_todo :: "Todo \<Rightarrow> Store \<Rightarrow> (db_error + nat) \<times> Store" where
  "db_add_todo todo s =
     (case todo_id todo of
        Some k \<Rightarrow>
          (if k \<in> fst ` set (todoStore s) then (Inl ConstraintError, s)
           else db_put_todo todo s)
      | None \<Rightarrow> db_put_todo todo s)"

text \<open>
  \<open>x || d\<close> for a field \<open>x\<close> that is an array, an object, a date or an enumeration
  string when present (all truthy), and for a string \<open>x\<close> with the default \<open>""\<close>.
\<close>

definition or_default :: "'a option \<Rightarrow> 'a \<Rightarrow> 'a" where
  "or_default x d = (case x of None \<Rightarrow> d | Some v \<Rightarrow> v)"

definition addTodo :: "date \<Rightarrow> Todo \<Rightarrow> Store \<Rightarrow> (db_error + nat) \<times> Store" where
  "addTodo now todo s =
     (let newTodo = todo\<lparr>createdAt := Some (or_default (createdAt todo) now),
                         tags := Some (or_default (tags todo) []),
                         priority := Some (or_default (priority todo) MEDIUM),
                         subtasks := Some (or_default (subtasks todo) []),
                         todo_notes := Some (or_default (todo_notes todo) []),
                         description := Some (or_default (description todo) [])\<rparr>
      in db_add_todo newTodo s)"

definition getTodos :: "Store \<Rightarrow> Todo list" where
  "getTodos s =
     map (\<lambda>todo. todo\<lparr>tags := Some (or_default (tags todo) []),
                       priority := Some (or_default (priority todo) MEDIUM),
                       subtasks := Some (or_default (subtasks todo) []),
                       todo_notes := Some (or_default (todo_notes todo) []),
                       description := Some (or_default (description todo) [])\<rparr>)
       (db_getAll_todos s)"

definition getTodosByDate :: "int \<Rightarrow> date \<Rightarrow> Store \<Rightarrow> Todo list" where
  "getTodosByDate tz date s =
     filter (\<lambda>todo. case dueDate todo of
                      None \<Rightarrow> False
                    | Some todoDate \<Rightarrow>
                        getFullYear tz todoDate = getFullYear tz date \<and>
                        getMonth tz todoDate = getMonth tz date \<and>
                        getDate tz todoDate = getDate tz date)
       (db_getAll_todos s)"

text \<open>
  \<open>db.getAllFromIndex(TODO_STORE, index, value)\<close>: the records whose indexed field is
  the value, in key order.
\<close>

definition getTodosByPriority :: "Priority \<Rightarrow> Store \<Rightarrow> Todo list" where
  "getTodosByPriority p s = filter (\<lambda>todo. priority todo = Some p) (db_getAll_todos s)"

definition getTodosByCategory :: "string \<Rightarrow> Store \<Rightarrow> Todo list" where
  "getTodosByCategory cid s = filter (\<lambda>todo. categoryId todo = Some cid) (db_getAll_todos s)"

definition getTodosByTag :: "string \<Rightarrow> Store \<Rightarrow> Todo list" where
  "getTodosByTag tag s =
     filter (\<lambda>todo. case tags todo of None \<Rightarrow> False | Some ts \<Rightarrow> tag \<in> set ts)
       (db_getAll_todos s)"

definition searchTodos :: "string \<Rightarrow> Store \<Rightarrow> Todo list" where
  "searchTodos query s =
     (let lowerQuery = toLowerCase query
      in filter (\<lambda>todo.
                   includes_str (toLowerCase (todo_text todo)) lowerQuery \<or>
                   (case description todo of
                      None \<Rightarrow> False
                    | Some d \<Rightarrow> d \<noteq> [] \<and> includes_str (toLowerCase d) lowerQuery) \<or>
                   (case todo_notes todo of
                      None \<Rightarrow> False
                    | Some ns \<Rightarrow>
                        list_ex (\<lambda>note. includes_str (toLowerCase (note_content note))
                                   lowerQuery) ns))
           (db_getAll_todos s))"

text \<open>\<open>getAllTags\<close>: the tags of all todos, each once, in the order of first occurrence.\<close>

definition tagsSet_add :: "string list \<Rightarrow> string \<Rightarrow> string list" where
  "tagsSet_add tagsSet tag = (if tag \<in> set tagsSet then tagsSet else tagsSet @ [tag])"

definition getAllTags :: "Store \<Rightarrow> string list" where
  "getAllTags s =
     foldl (\<lambda>tagsSet todo.
              case tags todo of
                None \<Rightarrow> tagsSet
              | Some ts \<Rightarrow> (if length ts > 0 then foldl tagsSet_add tagsSet ts else tagsSet))
       [] (db_getAll_todos s)"

definition updateTodo :: "Todo \<Rightarrow> Store \<Rightarrow> (db_error + nat) \<times> Store" where
  "updateTodo todo s = db_put_todo todo s"

text \<open>
  The mutators read the todo, change it and put it back; they return the changed todo,
  or \<open>undefined\<close> (\<open>None\<close>) when there is nothing to change, and fail when the put
  fails. The current time (\<open>new Date()\<close>) and the fresh identifier (\<open>uuid()\<close>) are
  arguments.
\<close>

text \<open>\<open>await db.put(TODO_STORE, todo); return todo\<close>.\<close>

definition put_and_return :: "Todo \<Rightarrow> Store \<Rightarrow> (db_error + Todo option) \<times> Store" where
  "put_and_return todo s =
     (case db_put_todo todo s of
        (Inl e, s') \<Rightarrow> (Inl e, s')
      | (Inr k, s') \<Rightarrow> (Inr (Some todo), s'))"

definition toggleTodoCompletion ::
  "date \<Rightarrow> nat \<Rightarrow> bool \<Rightarrow> Store \<Rightarrow> (db_error + Todo option) \<times> Store" where
  "toggleTodoCompletion now k c s =
     (case db_get_todo s k of
        Some todo \<Rightarrow>
          (let todo' = todo\<lparr>completed := c,
                            completedAt := (if c then Some now else None)\<rparr>
           in put_and_return todo' s)
      | None \<Rightarrow> (Inr None, s))"

definition addSubtask ::
  "string \<Rightarrow> nat \<Rightarrow> string \<Rightarrow> Store \<Rightarrow> (db_error + Todo option) \<times> Store" where
  "addSubtask uuid todoId subtaskText s =
     (case db_get_todo s todoId of
        Some todo \<Rightarrow>
          (let newSubtask = \<lparr>subtask_id = uuid, subtask_text = subtaskText,
                             subtask_completed = False\<rparr>;
               todo' = todo\<lparr>subtasks := Some (or_default (subtasks todo) [] @ [newSubtask])\<rparr>
           in put_and_return todo' s)
      | None \<Rightarrow> (Inr None, s))"

definition addNote ::
  "string \<Rightarrow> date \<Rightarrow> nat \<Rightarrow> string \<Rightarrow> Store \<Rightarrow> (db_error + Todo option) \<times> Store" where
  "addNote uuid now todoId content s =
     (case db_get_todo s todoId of
        Some todo \<Rightarrow>
          (let newNote = \<lparr>note_id = uuid, note_content = content,
                          note_createdAt = now, note_updatedAt = now\<rparr>;
               todo' = todo\<lparr>todo_notes := Some (or_default (todo_notes todo) [] @ [newNote])\<rparr>
           in put_and_return todo' s)
      | None \<Rightarrow> (Inr None, s))"

definition startTimeTracking ::
  "date \<Rightarrow> nat \<Rightarrow> Store \<Rightarrow> (db_error + Todo option) \<times> Store" where
  "startTimeTracking now todoId s =
     (case db_get_todo s todoId of
        Some todo \<Rightarrow>
          (let tt = or_default (timeTracking todo)
                      \<lparr>started = None, stopped = None, totalTime = None\<rparr>;
               todo' = todo\<lparr>timeTracking := Some (tt\<lparr>started := Some now, stopped := None\<rparr>)\<rparr>
           in put_and_return todo' s)
      | None \<Rightarrow> (Inr None, s))"

definition stopTimeTracking ::
  "date \<Rightarrow> nat \<Rightarrow> Store \<Rightarrow> (db_error + Todo option) \<times> Store" where
  "stopTimeTracking now todoId s =
     (case db_get_todo s todoId of
        None \<Rightarrow> (Inr None, s)
      | Some todo \<Rightarrow>
          (case timeTracking todo of
             None \<Rightarrow> (Inr None, s)
           | Some tt \<Rightarrow>
               (case started tt of
                  None \<Rightarrow> (Inr None, s)
                | Some st \<Rightarrow>
                    (let elapsed = now - st;
                         todo' = todo\<lparr>timeTracking :=
                                   Some \<lparr>started = Some st, stopped = Some now,
                                         totalTime = Some (or_default (totalTime tt) 0 + elapsed)\<rparr>\<rparr>
                     in put_and_return todo' s))))"

text \<open>
  The loop of \<open>deleteCategory\<close>, for each todo of the list in turn:
  \<open>todo.categoryId = undefined; await updateTodo(todo)\<close>. A failing \<open>updateTodo\<close>
  ends the loop with its error.
\<close>

fun clearCategories :: "Todo list \<Rightarrow> Store \<Rightarrow> (db_error + unit) \<times> Store" where
  "clearCategories [] s = (Inr (), s)"
| "clearCategories (todo # todos) s =
     (case updateTodo (todo\<lparr>categoryId := None\<rparr>) s of
        (Inl e, s') \<Rightarrow> (Inl e, s')
      | (Inr k, s') \<Rightarrow> clearCategories todos s')"

definition deleteCategory :: "string \<Rightarrow> Store \<Rightarrow> (db_error + unit) \<times> Store" where
  "deleteCategory cid s =
     (let s1 = s\<lparr>categoryStore := filter (\<lambda>c. category_id c \<noteq> cid) (categoryStore s)\<rparr>;
          todos = getTodosByCategory cid s1
      in clearCategories todos s1)"

text \<open>The store after one round of the loop.\<close>

definition clearCategory :: "Store \<Rightarrow> Todo \<Rightarrow> Store" where
  "clearCategory s' todo = snd (updateTodo (todo\<lparr>categoryId := None\<rparr>) s')"

section \<open>The daily statistics (db)\<close>

definition zeroCount :: StatCount where
  "zeroCount = \<lparr>stat_completed = 0, stat_total = 0\<rparr>"

text \<open>
  \<open>stats[key].total++\<close>, and \<open>stats[key].completed++\<close> for a completed todo, guarded by
  \<open>if (stats[key])\<close>: only a key of the table is counted.
\<close>

definition bumpCount :: "bool \<Rightarrow> (string \<rightharpoonup> StatCount) \<Rightarrow> string \<Rightarrow> (string \<rightharpoonup> StatCount)" where
  "bumpCount done stats key =
     (case stats key of
        None \<Rightarrow> stats
      | Some c \<Rightarrow>
          stats(key \<mapsto> c\<lparr>stat_total := stat_total c + 1,
                           stat_completed := (if done then stat_completed c + 1
                                              else stat_completed c)\<rparr>))"

text \<open>
  The body of \<open>allTodos.forEach\<close> in \<open>updateDailyStats\<close>, on the four counters
  (completedCount, totalCount, categoryStats, tagStats).
\<close>

definition statsStep ::
  "string \<Rightarrow> nat \<times> nat \<times> (string \<rightharpoonup> StatCount) \<times> (string \<rightharpoonup> StatCount) \<Rightarrow> Todo \<Rightarrow>
   nat \<times> nat \<times> (string \<rightharpoonup> StatCount) \<times> (string \<rightharpoonup> StatCount)" where
  "statsStep todayStr acc todo =
     (case acc of (completedCount0, totalCount0, categoryStats0, tagStats0) \<Rightarrow>
        (let completedCount1 =
               (case completedAt todo of
                  None \<Rightarrow> completedCount0
                | Some completedDate \<Rightarrow>
                    (if toISODate completedDate = todayStr then completedCount0 + 1
                     else completedCount0))
         in (case dueDate todo of
               None \<Rightarrow> (completedCount1, totalCount0, categoryStats0, tagStats0)
             | Some due \<Rightarrow>
                 (if toISODate due = todayStr
                  then (completedCount1, totalCount0 + 1,
                        (case categoryId todo of
                           None \<Rightarrow> categoryStats0
                         | Some c \<Rightarrow>
                             (if c = [] then categoryStats0
                              else bumpCount (completed todo) categoryStats0 c)),
                        (case tags todo of
                           None \<Rightarrow> tagStats0
                         | Some ts \<Rightarrow> foldl (bumpCount (completed todo)) tagStats0 ts))
                  else (completedCount1, totalCount0, categoryStats0, tagStats0)))))"

definition updateDailyStats :: "int \<Rightarrow> date \<Rightarrow> Store \<Rightarrow> Store" where
  "updateDailyStats tz now s =
     (let today = setHours0 tz now;
          todayStr = toISODate today;
          statsId = ''stats_'' @ todayStr;
          allTodos = db_getAll_todos s;
          categories = categoryStore s;
          categoryStatsInit =
            foldl (\<lambda>m cat. m(category_id cat \<mapsto> zeroCount)) Map.empty categories;
          tagStatsInit = foldl (\<lambda>m tag. m(tag \<mapsto> zeroCount)) Map.empty (getAllTags s)
      in (case foldl (statsStep todayStr) (0, 0, categoryStatsInit, tagStatsInit) allTodos of
            (completedCountF, totalCountF, categoryStatsF, tagStatsF) \<Rightarrow>
              s\<lparr>statsStore := (statsStore s)(statsId \<mapsto>
                   \<lparr>stats_id = statsId, stats_date = today,
                    completedCount = completedCountF, totalCount = totalCountF,
                    categoryStats = categoryStatsF, tagStats = tagStatsF\<rparr>)\<rparr>))"

section \<open>The day view of the calendar (CalendarView)\<close>

text \<open>The 48 half-hour slots of a day, as (hour, minute).\<close>

definition TIME_SLOTS :: "(int \<times> int) list" where
  "TIME_SLOTS = map (\<lambda>i. (i div 2, if i mod 2 = 0 then 0 else 30)) [0..47]"

definition getTodosForDay :: "int \<Rightarrow> Todo list \<Rightarrow> date \<Rightarrow> Todo list" where
  "getTodosForDay tz todos day =
     (let dayStart = startOfDay tz day;
          dayEnd = addDays dayStart 1
      in filter (\<lambda>todo. case dueDate todo of
                          None \<Rightarrow> False
                        | Some due \<Rightarrow>
                            (if getHours tz due \<noteq> 0 \<or> getMinutes tz due \<noteq> 0
                             then isWithinInterval due dayStart dayEnd
                             else isSameDay tz due day))
           todos)"

definition getTodosForTimeSlot :: "int \<Rightarrow> Todo list \<Rightarrow> date \<Rightarrow> int \<Rightarrow> int \<Rightarrow> Todo list" where
  "getTodosForTimeSlot tz todos day hour minute =
     filter (\<lambda>todo. case dueDate todo of
                      None \<Rightarrow> False
                    | Some due \<Rightarrow>
                        (let dueHour = getHours tz due;
                             dueMinute = getMinutes tz due
                         in if dueHour = 0 \<and> dueMinute = 0 then False
                            else isSameDay tz due day \<and> dueHour = hour \<and>
                                 (if minute = 0 then dueMinute < 30 else dueMinute \<ge> 30)))
       todos"

text \<open>The list under the day view's all-day heading: the todos of the day due at 00:00.\<close>

definition allDayTodos :: "int \<Rightarrow> Todo list \<Rightarrow> date \<Rightarrow> Todo list" where
  "allDayTodos tz todos day =
     filter (\<lambda>todo. case dueDate todo of
                      None \<Rightarrow> False
                    | Some due \<Rightarrow> getHours tz due = 0 \<and> getMinutes tz due = 0)
       (getTodosForDay tz todos day)"

section \<open>Well-formed stores and example data\<close>

text \<open>
  What IndexedDB guarantees of an object store with a key path: the records are in
  ascending key order, no key occurs twice, and each record carries its key in \<open>id\<close>.
\<close>

definition wf_store :: "Store \<Rightarrow> bool" where
  "wf_store s \<longleftrightarrow>
     sorted_wrt (<) (map fst (todoStore s)) \<and>
     list_all (\<lambda>(k, todo). todo_id todo = Some k) (todoStore s)"

definition emptyTodo :: Todo where
  "emptyTodo =
     \<lparr>todo_id = None, todo_text = [], description = None, completed = False,
      createdAt = None, dueDate = None, startDate = None, endDate = None, tags = None,
      priority = None, repeat = None, subtasks = None, todo_notes = None, parentId = None,
      categoryId = None, completedAt = None, timeTracking = None\<rparr>"

definition emptyStore :: Store where
  "emptyStore =
     \<lparr>todoStore = [], todoKeyGen = 1, categoryStore = [], settingsStore = None,
      templateStore = [], statsStore = Map.empty\<rparr>"

text \<open>The offset of Asia/Seoul, and 10:00 there on 2024-01-10 (01:00 UTC).\<close>

definition kst :: int where
  "kst = 32400000"

definition ex_now :: date where
  "ex_now = 1704848400000"

text \<open>A todo without a due date.\<close>

definition ex_undated :: Todo where
  "ex_undated =
     emptyTodo\<lparr>todo_id := Some 1, todo_text := ''Call home'', tags := Some [''home''],
       priority := Some LOW, subtasks := Some [], todo_notes := Some [],
       description := Some []\<rparr>"

text \<open>A todo due on 2024-01-10 with no time of day: 00:00 in Seoul, 15:00 UTC the day before.\<close>

definition ex_dated :: Todo where
  "ex_dated =
     emptyTodo\<lparr>todo_id := Some 2, todo_text := ''Buy milk'', dueDate := Some 1704812400000,
       tags := Some [''home'', ''shop''], priority := Some MEDIUM, subtasks := Some [],
       todo_notes := Some [], description := Some [], categoryId := Some ''c1''\<rparr>"

text \<open>
  A todo due on 2024-01-10 at 09:00 in Seoul (00:00 UTC), as a record of the first schema
  version: it has no tags, priority, subtasks, notes or description.
\<close>

definition ex_timed :: Todo where
  "ex_timed =
     emptyTodo\<lparr>todo_id := Some 3, todo_text := ''Stand-up'', dueDate := Some 1704844800000\<rparr>"

definition ex_store :: Store where
  "ex_store =
     emptyStore\<lparr>todoStore := [(1, ex_undated), (2, ex_dated), (3, ex_timed)],
       todoKeyGen := 4,
       categoryStore := [\<lparr>category_id = ''c1'', category_name = ''Errands'',
                          category_color = ''#ff0000'', category_parentId = None\<rparr>]\<rparr>"

text \<open>
  The example store after \<open>updateTodo\<close> of the first todo with the id \<open>2^53\<close>: the
  key generator is exhausted.
\<close>

definition ex_exhausted :: Store where
  "ex_exhausted = snd (updateTodo (ex_undated\<lparr>todo_id := Some 9007199254740992\<rparr>) ex_store)"

text \<open>A payload for \<open>addTodo\<close> that has only a title.\<close>

definition ex_payload :: Todo where
  "ex_payload = emptyTodo\<lparr>todo_text := ''Water plants''\<rparr>"

section \<open>Properties of the filter\<close>

text \<open>
  C9: the filter is idempotent. Filtering the output of \<open>filterTodos\<close> again with the
  same criteria yields the same list.
\<close>

theorem filterTodos_idempotent:
  "filterTodos tz (filterTodos tz T d S cs p q cf) d S cs p q cf =
   filterTodos tz T d S cs p q cf"
  by (simp add: filterTodos_def)

theorem filterTodos_idempotent_witness:
  "filterTodos kst
     (filterTodos kst [ex_undated, ex_dated, ex_timed] (Some ex_now) [''home''] [] None [] All)
     (Some ex_now) [''home''] [] None [] All =
   filterTodos kst [ex_undated, ex_dated, ex_timed] (Some ex_now) [''home''] [] None [] All"
  by (rule filterTodos_idempotent)



text \<open>
  C1, as the code has it: with a selected date, a todo is in the output exactly when it
  is in the output for no selected date (all other criteria the same) and, if it has a
  due date, the year, month and day of that due date are those of the selected date. A
  todo without a due date passes the date filter.
\<close>

theorem filterTodos_date:
  "t \<in> set (filterTodos tz todos (Some sd) S cs p q cf) \<longleftrightarrow>
     t \<in> set (filterTodos tz todos None S cs p q cf) \<and>
     (case dueDate t of
        None \<Rightarrow> True
      | Some due \<Rightarrow> getFullYear tz due = getFullYear tz sd \<and>
                    getMonth tz due = getMonth tz sd \<and>
                    getDate tz due = getDate tz sd)"
  by (cases "dueDate t") (auto simp: filterTodos_def filterTodos_keep_def)

theorem filterTodos_date_witness:
  "ex_dated \<in> set (filterTodos kst [ex_undated, ex_dated, ex_timed] (Some ex_now)
                     [] [] None [] All)"
proof -
  have "filterTodos kst [ex_undated, ex_dated, ex_timed] None [] [] None [] All =
        [ex_undated, ex_dated, ex_timed]"
    by code_simp
  moreover have "(case dueDate ex_dated of
                    None \<Rightarrow> True
                  | Some due \<Rightarrow> getFullYear kst due = getFullYear kst ex_now \<and>
                                getMonth kst due = getMonth kst ex_now \<and>
                                getDate kst due = getDate kst ex_now)"
    by code_simp
  ultimately show ?thesis
    using filterTodos_date [of ex_dated kst "[ex_undated, ex_dated, ex_timed]" ex_now
            "[]" "[]" None "[]" All]
    by simp
qed

text \<open>
  C1 as stated fails: with a selected date, the todo without a due date is in the output.
\<close>

theorem filterTodos_date_counterexample:
  "dueDate ex_undated = None \<and>
   filterTodos kst [ex_undated, ex_dated, ex_timed] (Some ex_now) [] [] None [] All =
   [ex_undated, ex_dated, ex_timed]"
  by code_simp

section \<open>Properties of the record store\<close>

subsection \<open>Reading and writing a key\<close>

lemma map_of_put_sorted:
  "map_of (put_sorted k v xs) k' = (if k' = k then Some v else map_of xs k')"
  by (induction xs) auto

lemma keys_put_sorted:
  "sorted_wrt (<) (map fst xs) \<Longrightarrow> k \<in> fst ` set xs \<Longrightarrow>
   map fst (put_sorted k v xs) = map fst xs"
  by (induction xs) (auto simp: rev_image_eqI)

lemma db_get_put:
  "todo_id t = Some k \<Longrightarrow>
   db_get_todo (snd (db_put_todo t s)) k' = (if k' = k then Some t else db_get_todo s k')"
  by (simp add: db_put_todo_def db_store_todo_def db_get_todo_def map_of_put_sorted)

lemma db_put_explicit:
  "todo_id t = Some k \<Longrightarrow> db_put_todo t s = (Inr k, db_store_todo k t s)"
  by (simp add: db_put_todo_def)

lemma put_and_return_explicit:
  "todo_id t = Some k \<Longrightarrow> put_and_return t s = (Inr (Some t), snd (db_put_todo t s))"
  by (simp add: put_and_return_def db_put_explicit)

lemma put_sorted_mem: "(k, v) \<in> set (put_sorted k v xs)"
  by (induction xs) auto

lemma wf_store_id:
  "wf_store s \<Longrightarrow> db_get_todo s k = Some t \<Longrightarrow> todo_id t = Some k"
  by (auto simp: wf_store_def db_get_todo_def list_all_iff dest!: map_of_SomeD)

text \<open>
  The empty store is well-formed, and every write of a todo keeps the store well-formed.
\<close>

lemma set_put_sorted:
  "set (map fst (put_sorted k v xs)) = insert k (set (map fst xs))"
proof (induction xs)
  case Nil
  then show ?case by simp
next
  case (Cons a xs)
  obtain j u where a: "a = (j, u)" by (cases a)
  show ?case unfolding a using Cons by (simp add: insert_commute)
qed

lemma sorted_put_sorted:
  "sorted_wrt (<) (map fst xs) \<Longrightarrow> sorted_wrt (<) (map fst (put_sorted k v xs))"
proof (induction xs)
  case Nil
  then show ?case by simp
next
  case (Cons a xs)
  obtain j u where a: "a = (j, u)" by (cases a)
  have tl: "sorted_wrt (<) (map fst (put_sorted k v xs))" using Cons by simp
  have lt: "\<forall>i \<in> set (map fst xs). j < i" using Cons.prems a by simp
  show ?case
  proof (cases "k < j")
    case True
    then show ?thesis using Cons.prems a lt by auto
  next
    case False
    show ?thesis
    proof (cases "k = j")
      case True
      then show ?thesis using Cons.prems a by simp
    next
      case neq: False
      then have "j < k" using False by simp
      then have "\<forall>i \<in> set (map fst (put_sorted k v xs)). j < i"
        using lt unfolding set_put_sorted by simp
      then show ?thesis using tl a False neq by simp
    qed
  qed
qed

lemma ids_put_sorted:
  "list_all (\<lambda>(j, todo). todo_id todo = Some j) xs \<Longrightarrow> todo_id v = Some k \<Longrightarrow>
   list_all (\<lambda>(j, todo). todo_id todo = Some j) (put_sorted k v xs)"
  by (induction xs) auto

lemma wf_store_empty: "wf_store emptyStore"
  by (simp add: wf_store_def emptyStore_def)

lemma wf_store_put: "wf_store s \<Longrightarrow> wf_store (snd (db_put_todo t s))"
  by (cases "todo_id t")
     (simp_all add: wf_store_def db_put_todo_def db_store_todo_def Let_def sorted_put_sorted
        ids_put_sorted)

lemma wf_ex_store: "wf_store ex_store"
  by code_simp

lemma get_ex_dated: "db_get_todo ex_store 2 = Some ex_dated"
  by code_simp

subsection \<open>Toggling completion\<close>

text \<open>
  C4: toggling twice. For a stored todo \<open>t\<close> with key \<open>k\<close>, every call
  \<open>toggleTodoCompletion(k, b)\<close> succeeds, and returns and stores \<open>t\<close> with \<open>completed = b\<close> and
  with \<open>completedAt\<close> the current time if \<open>b\<close> is true, absent if \<open>b\<close> is false. The
  call with the complement of \<open>t\<close>'s flag followed by the call with \<open>t\<close>'s flag (true
  then false for an active todo, false then true for a completed one) leaves \<open>completed\<close>
  as it was in \<open>t\<close>; all other fields but \<open>completedAt\<close> are those of \<open>t\<close>.
\<close>

theorem toggle_twice:
  assumes "wf_store s" and "db_get_todo s k = Some t"
  shows "(\<exists>s'. toggleTodoCompletion now k b s =
                 (Inr (Some (t\<lparr>completed := b, completedAt := (if b then Some now else None)\<rparr>)),
                  s') \<and>
               db_get_todo s' k =
                 Some (t\<lparr>completed := b, completedAt := (if b then Some now else None)\<rparr>)) \<and>
         (\<exists>t1 s1 t2 s2.
            toggleTodoCompletion now1 k (\<not> completed t) s = (Inr (Some t1), s1) \<and>
            toggleTodoCompletion now2 k (completed t) s1 = (Inr (Some t2), s2) \<and>
            db_get_todo s1 k = Some t1 \<and> db_get_todo s2 k = Some t2 \<and>
            t1 = t\<lparr>completed := \<not> completed t,
                   completedAt := (if completed t then None else Some now1)\<rparr> \<and>
            t2 = t\<lparr>completedAt := (if completed t then Some now2 else None)\<rparr> \<and>
            completed t2 = completed t)"
proof -
  have id: "todo_id t = Some k" using assms by (rule wf_store_id)
  define t0 where "t0 = t\<lparr>completed := b, completedAt := (if b then Some now else None)\<rparr>"
  have id0: "todo_id t0 = Some k" using id by (simp add: t0_def)
  then have g0: "db_get_todo (snd (db_put_todo t0 s)) k = Some t0"
    by (simp add: db_get_put)
  have r0: "toggleTodoCompletion now k b s = (Inr (Some t0), snd (db_put_todo t0 s))"
    using assms(2) put_and_return_explicit [OF id0, of s]
    by (simp add: toggleTodoCompletion_def Let_def t0_def)
  define t1 where "t1 = t\<lparr>completed := \<not> completed t,
                          completedAt := (if \<not> completed t then Some now1 else None)\<rparr>"
  define s1 where "s1 = snd (db_put_todo t1 s)"
  define t2 where "t2 = t1\<lparr>completed := completed t,
                           completedAt := (if completed t then Some now2 else None)\<rparr>"
  define s2 where "s2 = snd (db_put_todo t2 s1)"
  have id1: "todo_id t1 = Some k" and id2: "todo_id t2 = Some k"
    using id by (simp_all add: t1_def t2_def)
  have g1: "db_get_todo s1 k = Some t1"
    unfolding s1_def using id1 by (simp add: db_get_put)
  have g2: "db_get_todo s2 k = Some t2"
    unfolding s2_def using id2 by (simp add: db_get_put)
  have r1: "toggleTodoCompletion now1 k (\<not> completed t) s = (Inr (Some t1), s1)"
    using assms(2) put_and_return_explicit [OF id1, of s]
    by (simp add: toggleTodoCompletion_def Let_def t1_def s1_def)
  have r2: "toggleTodoCompletion now2 k (completed t) s1 = (Inr (Some t2), s2)"
    using g1 put_and_return_explicit [OF id2, of s1]
    by (simp add: toggleTodoCompletion_def Let_def t2_def s2_def)
  have e1: "t1 = t\<lparr>completed := \<not> completed t,
                    completedAt := (if completed t then None else Some now1)\<rparr>"
    by (simp add: t1_def)
  have e2: "t2 = t\<lparr>completedAt := (if completed t then Some now2 else None)\<rparr>"
    by (simp add: t2_def t1_def)
  have e3: "completed t2 = completed t" by (simp add: t2_def)
  have first: "\<exists>s'. toggleTodoCompletion now k b s = (Inr (Some t0), s') \<and>
                    db_get_todo s' k = Some t0"
    using r0 g0 by blast
  have second: "\<exists>t1 s1 t2 s2.
            toggleTodoCompletion now1 k (\<not> completed t) s = (Inr (Some t1), s1) \<and>
            toggleTodoCompletion now2 k (completed t) s1 = (Inr (Some t2), s2) \<and>
            db_get_todo s1 k = Some t1 \<and> db_get_todo s2 k = Some t2 \<and>
            t1 = t\<lparr>completed := \<not> completed t,
                   completedAt := (if completed t then None else Some now1)\<rparr> \<and>
            t2 = t\<lparr>completedAt := (if completed t then Some now2 else None)\<rparr> \<and>
            completed t2 = completed t"
    using r1 r2 g1 g2 e1 e2 e3 by blast
  show ?thesis using first second unfolding t0_def by (rule conjI)
qed

theorem toggle_twice_witness:
  "wf_store ex_store \<and> db_get_todo ex_store 2 = Some ex_dated \<and>
   (\<exists>t1 s1 t2 s2.
      toggleTodoCompletion ex_now 2 (\<not> completed ex_dated) ex_store = (Inr (Some t1), s1) \<and>
      toggleTodoCompletion (ex_now + 1) 2 (completed ex_dated) s1 = (Inr (Some t2), s2) \<and>
      db_get_todo s2 2 = Some t2 \<and> completed t2 = completed ex_dated)"
proof -
  have "\<exists>t1 s1 t2 s2.
      toggleTodoCompletion ex_now 2 (\<not> completed ex_dated) ex_store = (Inr (Some t1), s1) \<and>
      toggleTodoCompletion (ex_now + 1) 2 (completed ex_dated) s1 = (Inr (Some t2), s2) \<and>
      db_get_todo s2 2 = Some t2 \<and> completed t2 = completed ex_dated"
    using toggle_twice [OF wf_ex_store get_ex_dated, of ex_now True ex_now "ex_now + 1"]
    by blast
  then show ?thesis using wf_ex_store get_ex_dated by simp
qed

subsection \<open>Adding and reading back\<close>

text \<open>
  C5, as the code has it: for a payload \<open>x\<close> without an id, while the key generator of
  the store is not exhausted (its current number is at most \<open>2^53\<close>), \<open>addTodo(x)\<close>
  succeeds with the next generated key, and \<open>getTodos()\<close> then contains \<open>x\<close> with
  that key as its id and with the defaults filled in: \<open>createdAt\<close> the current time,
  \<open>tags\<close>, \<open>subtasks\<close> and \<open>notes\<close> empty lists, \<open>description\<close> the empty string
  and \<open>priority\<close> medium, each only where \<open>x\<close> omits the field. Once the key
  generator is exhausted, \<open>addTodo(x)\<close> fails with a \<open>ConstraintError\<close> and the store
  is unchanged.
\<close>

theorem addTodo_getTodos:
  assumes "todo_id x = None"
  shows "(todoKeyGen s \<le> maxGeneratedKey \<longrightarrow>
            (\<exists>s'. addTodo now x s = (Inr (todoKeyGen s), s') \<and>
               x\<lparr>todo_id := Some (todoKeyGen s),
                  createdAt := Some (or_default (createdAt x) now),
                  tags := Some (or_default (tags x) []),
                  priority := Some (or_default (priority x) MEDIUM),
                  subtasks := Some (or_default (subtasks x) []),
                  todo_notes := Some (or_default (todo_notes x) []),
                  description := Some (or_default (description x) [])\<rparr> \<in> set (getTodos s'))) \<and>
         (maxGeneratedKey < todoKeyGen s \<longrightarrow> addTodo now x s = (Inl ConstraintError, s))"
proof -
  define y where "y = x\<lparr>createdAt := Some (or_default (createdAt x) now),
                        tags := Some (or_default (tags x) []),
                        priority := Some (or_default (priority x) MEDIUM),
                        subtasks := Some (or_default (subtasks x) []),
                        todo_notes := Some (or_default (todo_notes x) []),
                        description := Some (or_default (description x) [])\<rparr>"
  define k where "k = todoKeyGen s"
  define s' where "s' = db_store_todo k (y\<lparr>todo_id := Some k\<rparr>) s"
  have idy: "todo_id y = None" using assms by (simp add: y_def)
  have addy: "addTodo now x s = db_put_todo y s"
    using idy by (simp add: addTodo_def db_add_todo_def Let_def y_def)
  have full: "addTodo now x s = (Inl ConstraintError, s)" if "maxGeneratedKey < todoKeyGen s"
    using that idy by (simp add: addy db_put_todo_def)
  have add: "addTodo now x s = (Inr k, s')" if "todoKeyGen s \<le> maxGeneratedKey"
    using that idy by (simp add: addy db_put_todo_def Let_def k_def s'_def)
  have "y\<lparr>todo_id := Some k\<rparr> \<in> set (db_getAll_todos s')"
    using put_sorted_mem [of k "y\<lparr>todo_id := Some k\<rparr>" "todoStore s"]
    by (force simp: db_getAll_todos_def s'_def db_store_todo_def)
  then have "(\<lambda>todo. todo\<lparr>tags := Some (or_default (tags todo) []),
                       priority := Some (or_default (priority todo) MEDIUM),
                       subtasks := Some (or_default (subtasks todo) []),
                       todo_notes := Some (or_default (todo_notes todo) []),
                       description := Some (or_default (description todo) [])\<rparr>)
               (y\<lparr>todo_id := Some k\<rparr>) \<in> set (getTodos s')"
    unfolding getTodos_def by (simp only: set_map) (rule imageI)
  moreover have "(\<lambda>todo. todo\<lparr>tags := Some (or_default (tags todo) []),
                       priority := Some (or_default (priority todo) MEDIUM),
                       subtasks := Some (or_default (subtasks todo) []),
                       todo_notes := Some (or_default (todo_notes todo) []),
                       description := Some (or_default (description todo) [])\<rparr>)
               (y\<lparr>todo_id := Some k\<rparr>) =
             x\<lparr>todo_id := Some (todoKeyGen s),
               createdAt := Some (or_default (createdAt x) now),
               tags := Some (or_default (tags x) []),
               priority := Some (or_default (priority x) MEDIUM),
               subtasks := Some (or_default (subtasks x) []),
               todo_notes := Some (or_default (todo_notes x) []),
               description := Some (or_default (description x) [])\<rparr>"
    by (cases x) (simp add: y_def k_def or_default_def)
  ultimately have mem: "x\<lparr>todo_id := Some (todoKeyGen s),
               createdAt := Some (or_default (createdAt x) now),
               tags := Some (or_default (tags x) []),
               priority := Some (or_default (priority x) MEDIUM),
               subtasks := Some (or_default (subtasks x) []),
               todo_notes := Some (or_default (todo_notes x) []),
               description := Some (or_default (description x) [])\<rparr> \<in> set (getTodos s')"
    by simp
  show ?thesis using add mem full by (auto simp: k_def)
qed

theorem addTodo_getTodos_witness:
  "todo_id ex_payload = None \<and> todoKeyGen ex_store \<le> maxGeneratedKey \<and>
   (\<exists>s'. addTodo ex_now ex_payload ex_store = (Inr 4, s') \<and>
      ex_payload\<lparr>todo_id := Some 4, createdAt := Some ex_now, tags := Some [],
        priority := Some MEDIUM, subtasks := Some [], todo_notes := Some [],
        description := Some []\<rparr> \<in> set (getTodos s')) \<and>
   maxGeneratedKey < todoKeyGen ex_exhausted \<and>
   addTodo ex_now ex_payload ex_exhausted = (Inl ConstraintError, ex_exhausted)"
proof -
  have h: "todo_id ex_payload = None" by code_simp
  have k: "todoKeyGen ex_store = 4" by code_simp
  have le: "todoKeyGen ex_store \<le> maxGeneratedKey" by code_simp
  have gt: "maxGeneratedKey < todoKeyGen ex_exhausted" by code_simp
  have d: "or_default (createdAt ex_payload) ex_now = ex_now"
    "or_default (tags ex_payload) [] = []"
    "or_default (priority ex_payload) MEDIUM = MEDIUM"
    "or_default (subtasks ex_payload) [] = []"
    "or_default (todo_notes ex_payload) [] = []"
    "or_default (description ex_payload) [] = []"
    by code_simp+
  have ok: "\<exists>s'. addTodo ex_now ex_payload ex_store = (Inr 4, s') \<and>
      ex_payload\<lparr>todo_id := Some 4, createdAt := Some ex_now, tags := Some [],
        priority := Some MEDIUM, subtasks := Some [], todo_notes := Some [],
        description := Some []\<rparr> \<in> set (getTodos s')"
    using le addTodo_getTodos [OF h, of ex_store ex_now] unfolding k d by simp
  have full: "addTodo ex_now ex_payload ex_exhausted = (Inl ConstraintError, ex_exhausted)"
    using gt addTodo_getTodos [OF h, of ex_exhausted ex_now] by simp
  show ?thesis using h le ok gt full by blast
qed

text \<open>
  C5 as stated fails twice. For a payload that omits \<open>priority\<close>: the statement lets
  only the id, \<open>createdAt\<close>, \<open>tags\<close>, \<open>subtasks\<close>, \<open>notes\<close> and \<open>description\<close>
  differ from the payload, but the one record read back has priority medium and the
  payload has none. And on the store whose key generator is exhausted: \<open>addTodo\<close> fails,
  and \<open>getTodos\<close> returns the four todos of before, none of them with the title of the
  payload.
\<close>

theorem addTodo_getTodos_counterexample:
  "(case addTodo ex_now ex_payload emptyStore of
      (Inl e, s') \<Rightarrow> False
    | (Inr k, s') \<Rightarrow>
        map priority (getTodos s') = [Some MEDIUM] \<and> priority ex_payload = None) \<and>
   todo_id ex_payload = None \<and>
   fst (addTodo ex_now ex_payload ex_exhausted) = Inl ConstraintError \<and>
   map todo_text (getTodos (snd (addTodo ex_now ex_payload ex_exhausted))) =
     [''Call home'', ''Buy milk'', ''Stand-up'', ''Call home''] \<and>
   todo_text ex_payload = ''Water plants''"
  by code_simp

subsection \<open>Reads that normalize and reads that do not\<close>

text \<open>Every todo that \<open>getTodos\<close> returns has tags, subtasks, notes and a description.\<close>

lemma getTodos_normalized:
  "t \<in> set (getTodos s) \<Longrightarrow>
   tags t \<noteq> None \<and> subtasks t \<noteq> None \<and> todo_notes t \<noteq> None \<and> description t \<noteq> None \<and>
   priority t \<noteq> None"
  by (auto simp: getTodos_def)

text \<open>
  C2 at a store that holds a record of the first schema version: the queries by date, by
  priority, by category and by tag and the text search return the records as stored.
  \<open>getTodosByDate\<close> returns the old record without tags, subtasks, notes and
  description, where \<open>getTodos\<close> fills them in.
\<close>

theorem getTodosByDate_not_normalized:
  "getTodosByDate kst ex_now ex_store = [ex_dated, ex_timed] \<and>
   tags ex_timed = None \<and> subtasks ex_timed = None \<and> todo_notes ex_timed = None \<and>
   description ex_timed = None \<and>
   searchTodos ''stand'' ex_store = [ex_timed] \<and>
   map tags (getTodos ex_store) = [Some [''home''], Some [''home'', ''shop''], Some []]"
  by code_simp

subsection \<open>Operations on a missing todo\<close>

text \<open>
  C10: when no todo has the key \<open>k\<close>, each of \<open>toggleTodoCompletion\<close>, \<open>addSubtask\<close>,
  \<open>addNote\<close>, \<open>startTimeTracking\<close> and \<open>stopTimeTracking\<close> returns \<open>undefined\<close>,
  without an error, and the store is unchanged; \<open>stopTimeTracking\<close> does the same for a stored todo that has no
  time tracking record or none with a start time.
\<close>

theorem missing_todo_noop:
  "(db_get_todo s k = None \<longrightarrow>
      toggleTodoCompletion now k b s = (Inr None, s) \<and>
      addSubtask uuid k subtaskText s = (Inr None, s) \<and>
      addNote uuid now k content s = (Inr None, s) \<and>
      startTimeTracking now k s = (Inr None, s) \<and>
      stopTimeTracking now k s = (Inr None, s)) \<and>
   (\<forall>t. db_get_todo s k = Some t \<and>
        (case timeTracking t of None \<Rightarrow> True | Some tt \<Rightarrow> started tt = None) \<longrightarrow>
        stopTimeTracking now k s = (Inr None, s))"
  by (auto simp: toggleTodoCompletion_def addSubtask_def addNote_def startTimeTracking_def
        stopTimeTracking_def split: option.splits)

theorem missing_todo_noop_witness:
  "db_get_todo ex_store 7 = None \<and>
   toggleTodoCompletion ex_now 7 True ex_store = (Inr None, ex_store) \<and>
   addSubtask ''u1'' 7 ''step'' ex_store = (Inr None, ex_store) \<and>
   addNote ''u1'' ex_now 7 ''note'' ex_store = (Inr None, ex_store) \<and>
   startTimeTracking ex_now 7 ex_store = (Inr None, ex_store) \<and>
   stopTimeTracking ex_now 7 ex_store = (Inr None, ex_store) \<and>
   db_get_todo ex_store 2 = Some ex_dated \<and> timeTracking ex_dated = None \<and>
   stopTimeTracking ex_now 2 ex_store = (Inr None, ex_store)"
proof -
  have a: "db_get_todo ex_store 7 = None" by code_simp
  have b: "timeTracking ex_dated = None" by code_simp
  show ?thesis
    using a b get_ex_dated
      missing_todo_noop [of ex_store 7 ex_now True "''u1''" "''step''" "''note''"]
      missing_todo_noop [of ex_store 2 ex_now True "''u1''" "''step''" "''note''"]
    by simp
qed

subsection \<open>Deleting a category\<close>

lemma clearCategory_get:
  "todo_id t = Some k \<Longrightarrow>
   db_get_todo (clearCategory s t) k' =
     (if k' = k then Some (t\<lparr>categoryId := None\<rparr>) else db_get_todo s k')"
  by (simp add: clearCategory_def updateTodo_def db_get_put)

lemma clearCategory_keys:
  "todo_id t = Some k \<Longrightarrow> sorted_wrt (<) (map fst (todoStore s)) \<Longrightarrow>
   k \<in> fst ` set (todoStore s) \<Longrightarrow>
   map fst (todoStore (clearCategory s t)) = map fst (todoStore s)"
  by (simp add: clearCategory_def updateTodo_def db_put_todo_def db_store_todo_def
        keys_put_sorted)

lemma clearCategory_rest:
  "todo_id t = Some k \<Longrightarrow>
   categoryStore (clearCategory s t) = categoryStore s \<and>
   settingsStore (clearCategory s t) = settingsStore s \<and>
   templateStore (clearCategory s t) = templateStore s \<and>
   statsStore (clearCategory s t) = statsStore s"
  by (simp add: clearCategory_def updateTodo_def db_put_todo_def db_store_todo_def)

lemma foldl_clear_other:
  "\<forall>t \<in> set ts. \<exists>j. todo_id t = Some j \<and> j \<noteq> k \<Longrightarrow>
   db_get_todo (foldl clearCategory s ts) k = db_get_todo s k"
proof (induction ts arbitrary: s)
  case Nil
  then show ?case by simp
next
  case (Cons t ts)
  then obtain j where j: "todo_id t = Some j" "j \<noteq> k" by auto
  have "db_get_todo (foldl clearCategory (clearCategory s t) ts) k =
        db_get_todo (clearCategory s t) k"
    using Cons by simp
  then show ?case using j by (simp add: clearCategory_get)
qed

lemma foldl_clear_hit:
  "t \<in> set ts \<Longrightarrow> todo_id t = Some k \<Longrightarrow> distinct (map todo_id ts) \<Longrightarrow>
   \<forall>u \<in> set ts. todo_id u \<noteq> None \<Longrightarrow>
   db_get_todo (foldl clearCategory s ts) k = Some (t\<lparr>categoryId := None\<rparr>)"
proof (induction ts arbitrary: s)
  case Nil
  then show ?case by simp
next
  case (Cons u ts)
  show ?case
  proof (cases "t = u")
    case True
    have "\<forall>v \<in> set ts. \<exists>j. todo_id v = Some j \<and> j \<noteq> k"
    proof
      fix v assume v: "v \<in> set ts"
      have "todo_id u \<notin> todo_id ` set ts" using Cons.prems(3) by simp
      then have "todo_id v \<noteq> todo_id u" using v by (metis imageI)
      moreover obtain j where "todo_id v = Some j" using Cons.prems(4) v by auto
      ultimately show "\<exists>j. todo_id v = Some j \<and> j \<noteq> k"
        using True Cons.prems(2) by auto
    qed
    then have "db_get_todo (foldl clearCategory (clearCategory s u) ts) k =
               db_get_todo (clearCategory s u) k"
      by (rule foldl_clear_other)
    then show ?thesis using True Cons.prems(2) by (simp add: clearCategory_get)
  next
    case False
    then have "t \<in> set ts" using Cons.prems(1) by simp
    then show ?thesis using Cons by simp
  qed
qed

lemma foldl_clear_keys:
  "sorted_wrt (<) (map fst (todoStore s)) \<Longrightarrow>
   \<forall>t \<in> set ts. \<exists>j. todo_id t = Some j \<and> j \<in> fst ` set (todoStore s) \<Longrightarrow>
   map fst (todoStore (foldl clearCategory s ts)) = map fst (todoStore s)"
proof (induction ts arbitrary: s)
  case Nil
  then show ?case by simp
next
  case (Cons t ts)
  then obtain j where j: "todo_id t = Some j" "j \<in> fst ` set (todoStore s)" by auto
  have k: "map fst (todoStore (clearCategory s t)) = map fst (todoStore s)"
    using j Cons.prems(1) by (simp add: clearCategory_keys)
  have s: "fst ` set (todoStore (clearCategory s t)) = fst ` set (todoStore s)"
    using k by (metis list.set_map)
  have "map fst (todoStore (foldl clearCategory (clearCategory s t) ts)) =
        map fst (todoStore (clearCategory s t))"
    using Cons.prems k s by (intro Cons.IH) auto
  then show ?case using k by simp
qed

lemma foldl_clear_rest:
  "\<forall>t \<in> set ts. todo_id t \<noteq> None \<Longrightarrow>
   categoryStore (foldl clearCategory s ts) = categoryStore s \<and>
   settingsStore (foldl clearCategory s ts) = settingsStore s \<and>
   templateStore (foldl clearCategory s ts) = templateStore s \<and>
   statsStore (foldl clearCategory s ts) = statsStore s"
proof (induction ts arbitrary: s)
  case Nil
  then show ?case by simp
next
  case (Cons t ts)
  then obtain j where "todo_id t = Some j" by auto
  then show ?case using Cons clearCategory_rest [of t j s] by simp
qed

text \<open>On todos that carry their keys, no round of the loop fails.\<close>

lemma clearCategories_foldl:
  "\<forall>t \<in> set ts. todo_id t \<noteq> None \<Longrightarrow>
   clearCategories ts s = (Inr (), foldl clearCategory s ts)"
proof (induction ts arbitrary: s)
  case Nil
  then show ?case by simp
next
  case (Cons t ts)
  then obtain j where j: "todo_id t = Some j" by auto
  have "updateTodo (t\<lparr>categoryId := None\<rparr>) s = (Inr j, clearCategory s t)"
    using j by (simp add: clearCategory_def updateTodo_def db_put_explicit)
  then show ?case using Cons by simp
qed

lemma deleteCategory_loop:
  "deleteCategory cid s =
     clearCategories
       (filter (\<lambda>todo. categoryId todo = Some cid) (map snd (todoStore s)))
       (s\<lparr>categoryStore := filter (\<lambda>c. category_id c \<noteq> cid) (categoryStore s)\<rparr>)"
  by (simp add: deleteCategory_def Let_def getTodosByCategory_def db_getAll_todos_def)

lemma wf_mem_id: "wf_store s \<Longrightarrow> (k, t) \<in> set (todoStore s) \<Longrightarrow> todo_id t = Some k"
  by (auto simp: wf_store_def list_all_iff)

lemma wf_distinct: "wf_store s \<Longrightarrow> distinct (map fst (todoStore s))"
  by (simp add: wf_store_def strict_sorted_iff)

text \<open>
  C6: deleting a category. In a well-formed store, \<open>deleteCategory(cid)\<close> does not
  fail and keeps the keys of the todo collection; a todo whose \<open>categoryId\<close> is \<open>cid\<close> is still stored under
  its key, with \<open>categoryId\<close> unset and nothing else changed, and every other todo is
  unchanged.
\<close>

theorem deleteCategory_clears:
  assumes "wf_store s"
  shows "fst (deleteCategory cid s) = Inr () \<and>
         map fst (todoStore (snd (deleteCategory cid s))) = map fst (todoStore s) \<and>
         (\<forall>k. db_get_todo (snd (deleteCategory cid s)) k =
                map_option (\<lambda>t. if categoryId t = Some cid then t\<lparr>categoryId := None\<rparr> else t)
                  (db_get_todo s k))"
proof -
  define s1 where
    "s1 = s\<lparr>categoryStore := filter (\<lambda>c. category_id c \<noteq> cid) (categoryStore s)\<rparr>"
  define ts where "ts = filter (\<lambda>todo. categoryId todo = Some cid) (map snd (todoStore s))"
  have loop: "deleteCategory cid s = clearCategories ts s1"
    by (simp add: deleteCategory_loop s1_def ts_def)
  have store1: "todoStore s1 = todoStore s" by (simp add: s1_def)
  have get1: "db_get_todo s1 k = db_get_todo s k" for k
    by (simp add: db_get_todo_def store1)
  have dist: "distinct (map fst (todoStore s))" using assms by (rule wf_distinct)
  have in_ts: "\<exists>j. (j, t) \<in> set (todoStore s) \<and> todo_id t = Some j \<and> categoryId t = Some cid"
    if "t \<in> set ts" for t
    using that wf_mem_id [OF assms] by (auto simp: ts_def)
  have ids: "map todo_id (map snd (todoStore s)) = map Some (map fst (todoStore s))"
    using wf_mem_id [OF assms] by auto
  have "distinct (map todo_id (map snd (todoStore s)))"
    using dist by (simp only: ids distinct_map inj_on_def) simp
  then have dts: "distinct (map todo_id ts)"
    unfolding ts_def by (rule distinct_map_filter)
  have some: "\<forall>u \<in> set ts. todo_id u \<noteq> None" using in_ts by force
  have del: "deleteCategory cid s = (Inr (), foldl clearCategory s1 ts)"
    using some by (simp add: loop clearCategories_foldl)
  have keys: "map fst (todoStore (foldl clearCategory s1 ts)) = map fst (todoStore s1)"
  proof (rule foldl_clear_keys)
    show "sorted_wrt (<) (map fst (todoStore s1))"
      using assms by (simp add: wf_store_def store1)
    show "\<forall>t \<in> set ts. \<exists>j. todo_id t = Some j \<and> j \<in> fst ` set (todoStore s1)"
      using in_ts by (force simp: store1)
  qed
  have get: "db_get_todo (foldl clearCategory s1 ts) k =
             map_option (\<lambda>t. if categoryId t = Some cid then t\<lparr>categoryId := None\<rparr> else t)
               (db_get_todo s k)" for k
  proof (cases "db_get_todo s k")
    case None
    have "\<forall>t \<in> set ts. \<exists>j. todo_id t = Some j \<and> j \<noteq> k"
    proof
      fix t assume "t \<in> set ts"
      then obtain j where j: "(j, t) \<in> set (todoStore s)" "todo_id t = Some j"
        using in_ts by blast
      then have "map_of (todoStore s) j \<noteq> None"
        by (metis map_of_eq_None_iff image_eqI fst_conv)
      then have "j \<noteq> k" using None by (auto simp: db_get_todo_def)
      then show "\<exists>j. todo_id t = Some j \<and> j \<noteq> k" using j by simp
    qed
    then have "db_get_todo (foldl clearCategory s1 ts) k = db_get_todo s1 k"
      by (rule foldl_clear_other)
    then show ?thesis using None by (simp add: get1)
  next
    case (Some t)
    then have mem: "(k, t) \<in> set (todoStore s)"
      by (auto simp: db_get_todo_def dest: map_of_SomeD)
    then have idt: "todo_id t = Some k" using wf_mem_id [OF assms] by simp
    show ?thesis
    proof (cases "categoryId t = Some cid")
      case True
      then have "t \<in> set ts" using mem by (force simp: ts_def)
      then have "db_get_todo (foldl clearCategory s1 ts) k = Some (t\<lparr>categoryId := None\<rparr>)"
        using idt dts some by (rule foldl_clear_hit)
      then show ?thesis using Some True by simp
    next
      case False
      have "\<forall>u \<in> set ts. \<exists>j. todo_id u = Some j \<and> j \<noteq> k"
      proof
        fix u assume "u \<in> set ts"
        then obtain j where j: "(j, u) \<in> set (todoStore s)" "todo_id u = Some j"
          "categoryId u = Some cid"
          using in_ts by blast
        have "j \<noteq> k"
        proof
          assume "j = k"
          then have "u = t" using j(1) mem dist by (metis eq_key_imp_eq_value)
          then show False using j(3) False by simp
        qed
        then show "\<exists>j. todo_id u = Some j \<and> j \<noteq> k" using j by simp
      qed
      then have "db_get_todo (foldl clearCategory s1 ts) k = db_get_todo s1 k"
        by (rule foldl_clear_other)
      then show ?thesis using Some False by (simp add: get1)
    qed
  qed
  show ?thesis using keys get by (simp add: del store1)
qed


theorem deleteCategory_clears_witness:
  "wf_store ex_store \<and>
   fst (deleteCategory ''c1'' ex_store) = Inr () \<and>
   map fst (todoStore (snd (deleteCategory ''c1'' ex_store))) = [1, 2, 3] \<and>
   db_get_todo (snd (deleteCategory ''c1'' ex_store)) 2 = Some (ex_dated\<lparr>categoryId := None\<rparr>) \<and>
   db_get_todo (snd (deleteCategory ''c1'' ex_store)) 1 = Some ex_undated"
proof -
  have k: "map fst (todoStore ex_store) = [1, 2, 3]" by code_simp
  have g1: "db_get_todo ex_store 1 = Some ex_undated" by code_simp
  have c1: "categoryId ex_undated \<noteq> Some ''c1''" by code_simp
  have c2: "categoryId ex_dated = Some ''c1''" by code_simp
  note main = deleteCategory_clears [OF wf_ex_store, of "''c1''"]
  have ok: "fst (deleteCategory ''c1'' ex_store) = Inr ()"
    using main by blast
  have keys: "map fst (todoStore (snd (deleteCategory ''c1'' ex_store))) = [1, 2, 3]"
    using main k by simp
  have get: "db_get_todo (snd (deleteCategory ''c1'' ex_store)) j =
             map_option (\<lambda>t. if categoryId t = Some ''c1'' then t\<lparr>categoryId := None\<rparr> else t)
               (db_get_todo ex_store j)" for j
    using main by blast
  have two: "db_get_todo (snd (deleteCategory ''c1'' ex_store)) 2 =
             Some (ex_dated\<lparr>categoryId := None\<rparr>)"
    unfolding get get_ex_dated using c2 by simp
  have one: "db_get_todo (snd (deleteCategory ''c1'' ex_store)) 1 = Some ex_undated"
    unfolding get g1 using c1 by simp
  show ?thesis using wf_ex_store ok keys two one by blast
qed

section \<open>Properties of the day view\<close>

lemma getHours_range: "0 \<le> getHours tz t \<and> getHours tz t < 24"
proof -
  have "0 \<le> (t + tz) mod 86400000" "(t + tz) mod 86400000 < 86400000" by simp_all
  then show ?thesis
    unfolding getHours_def msPerDay_def msPerHour_def
    by (simp add: div_less_iff_less_mult pos_imp_zdiv_nonneg_iff)
qed

lemma TIME_SLOTS_iff:
  "(h, m) \<in> set TIME_SLOTS \<longleftrightarrow> 0 \<le> h \<and> h < 24 \<and> (m = 0 \<or> m = 30)"
proof
  assume "(h, m) \<in> set TIME_SLOTS"
  then obtain i where "0 \<le> i" "i \<le> 47" "h = i div 2" "m = (if i mod 2 = 0 then 0 else 30)"
    by (auto simp: TIME_SLOTS_def)
  then show "0 \<le> h \<and> h < 24 \<and> (m = 0 \<or> m = 30)" by auto
next
  assume a: "0 \<le> h \<and> h < 24 \<and> (m = 0 \<or> m = 30)"
  define i where "i = (if m = 0 then 2 * h else 2 * h + 1)"
  have "0 \<le> i" "i \<le> 47" "h = i div 2" "m = (if i mod 2 = 0 then 0 else 30)"
    using a by (auto simp: i_def)
  then have "(h, m) = (\<lambda>i. (i div 2, if i mod 2 = 0 then 0 else 30)) i \<and> i \<in> {0..47}"
    by simp
  then show "(h, m) \<in> set TIME_SLOTS"
    unfolding TIME_SLOTS_def by (simp only: set_map set_upto) (rule image_eqI, auto)
qed

text \<open>
  C7: the buckets of the day view. A todo of the list due at hour 0 and minute 0 is in
  the all-day list of a day exactly when it is due on that day, and in no time slot of
  any day. A todo due at another time is in no all-day list; its due hour with minute 0
  (due minute below 30) or 30 is one of the 48 slots, and among the slots of a day the
  todo is in exactly that one when it is due on that day, and in none otherwise.
\<close>

theorem day_view_buckets:
  assumes "todo \<in> set todos" and "dueDate todo = Some due"
  shows "(getHours tz due = 0 \<and> getMinutes tz due = 0 \<longrightarrow>
            (todo \<in> set (allDayTodos tz todos day) \<longleftrightarrow> isSameDay tz due day) \<and>
            (\<forall>d h m. todo \<notin> set (getTodosForTimeSlot tz todos d h m))) \<and>
         (\<not> (getHours tz due = 0 \<and> getMinutes tz due = 0) \<longrightarrow>
            todo \<notin> set (allDayTodos tz todos day) \<and>
            (getHours tz due, if getMinutes tz due < 30 then 0 else 30) \<in> set TIME_SLOTS \<and>
            (\<forall>h m. (h, m) \<in> set TIME_SLOTS \<longrightarrow>
               (todo \<in> set (getTodosForTimeSlot tz todos day h m) \<longleftrightarrow>
                  isSameDay tz due day \<and> h = getHours tz due \<and>
                  m = (if getMinutes tz due < 30 then 0 else 30))))"
proof -
  have slot: "(getHours tz due, if getMinutes tz due < 30 then 0 else 30) \<in> set TIME_SLOTS"
    using getHours_range [of tz due] by (simp add: TIME_SLOTS_iff)
  have allday: "todo \<in> set (allDayTodos tz todos day) \<longleftrightarrow>
                getHours tz due = 0 \<and> getMinutes tz due = 0 \<and> isSameDay tz due day"
    using assms by (auto simp: allDayTodos_def getTodosForDay_def Let_def)
  have timed: "todo \<in> set (getTodosForTimeSlot tz todos d h m) \<longleftrightarrow>
               \<not> (getHours tz due = 0 \<and> getMinutes tz due = 0) \<and> isSameDay tz due d \<and>
               getHours tz due = h \<and>
               (if m = 0 then getMinutes tz due < 30 else getMinutes tz due \<ge> 30)" for d h m
    using assms by (auto simp: getTodosForTimeSlot_def Let_def)
  show ?thesis
    unfolding allday timed TIME_SLOTS_iff using slot by (auto simp: TIME_SLOTS_iff)
qed

theorem day_view_buckets_witness:
  "ex_dated \<in> set (allDayTodos kst [ex_dated, ex_timed] ex_now) \<and>
   ex_dated \<notin> set (getTodosForTimeSlot kst [ex_dated, ex_timed] ex_now 0 0) \<and>
   ex_timed \<notin> set (allDayTodos kst [ex_dated, ex_timed] ex_now) \<and>
   ex_timed \<in> set (getTodosForTimeSlot kst [ex_dated, ex_timed] ex_now 9 0) \<and>
   ex_timed \<notin> set (getTodosForTimeSlot kst [ex_dated, ex_timed] ex_now 9 30)"
proof -
  have m1: "ex_dated \<in> set [ex_dated, ex_timed]" and m2: "ex_timed \<in> set [ex_dated, ex_timed]"
    by simp_all
  have d1: "dueDate ex_dated = Some 1704812400000"
    and d2: "dueDate ex_timed = Some 1704844800000"
    by code_simp+
  have t1: "getHours kst 1704812400000 = 0" "getMinutes kst 1704812400000 = 0"
    "isSameDay kst 1704812400000 ex_now"
    by code_simp+
  have t2: "getHours kst 1704844800000 = 9" "getMinutes kst 1704844800000 = 0"
    "isSameDay kst 1704844800000 ex_now"
    by code_simp+
  have s: "(9, 0) \<in> set TIME_SLOTS" "(9, 30) \<in> set TIME_SLOTS"
    by (simp_all add: TIME_SLOTS_iff)
  show ?thesis
    using day_view_buckets [OF m1 d1, of kst ex_now] day_view_buckets [OF m2 d2, of kst ex_now]
      s
    by (simp add: t1 t2)
qed

section \<open>Properties of the daily statistics\<close>

text \<open>
  What \<open>updateDailyStats\<close> writes: one record, under the key made of the UTC date of
  local midnight, with the numbers of todos whose completion time and whose due time have
  that UTC date.
\<close>

lemma statsStep_counts:
  "foldl (statsStep d) (c, n, cs, ts) xs = (c', n', cs', ts') \<Longrightarrow>
   c' = c + length (filter (\<lambda>t. case completedAt t of None \<Rightarrow> False
                                 | Some x \<Rightarrow> toISODate x = d) xs) \<and>
   n' = n + length (filter (\<lambda>t. case dueDate t of None \<Rightarrow> False
                                 | Some x \<Rightarrow> toISODate x = d) xs)"
proof (induction xs arbitrary: c n cs ts)
  case Nil
  then show ?case by simp
next
  case (Cons t xs)
  obtain c1 n1 cs1 ts1 where step: "statsStep d (c, n, cs, ts) t = (c1, n1, cs1, ts1)"
    by (metis prod_cases4)
  have c1: "c1 = c + (if (case completedAt t of None \<Rightarrow> False | Some x \<Rightarrow> toISODate x = d)
                      then 1 else 0)"
    and n1: "n1 = n + (if (case dueDate t of None \<Rightarrow> False | Some x \<Rightarrow> toISODate x = d)
                       then 1 else 0)"
    using step by (auto simp: statsStep_def Let_def split: option.splits if_splits)
  have "foldl (statsStep d) (c1, n1, cs1, ts1) xs = (c', n', cs', ts')"
    using Cons.prems step by simp
  then have "c' = c1 + length (filter (\<lambda>t. case completedAt t of None \<Rightarrow> False
                                 | Some x \<Rightarrow> toISODate x = d) xs) \<and>
   n' = n1 + length (filter (\<lambda>t. case dueDate t of None \<Rightarrow> False
                                 | Some x \<Rightarrow> toISODate x = d) xs)"
    by (rule Cons.IH)
  then show ?case using c1 n1 by simp
qed

lemma updateDailyStats_record:
  "\<exists>r. updateDailyStats tz now s =
          s\<lparr>statsStore := (statsStore s)(''stats_'' @ toISODate (startOfDay tz now) \<mapsto> r)\<rparr> \<and>
        stats_id r = ''stats_'' @ toISODate (startOfDay tz now) \<and>
        stats_date r = startOfDay tz now \<and>
        completedCount r =
          length (filter (\<lambda>t. case completedAt t of None \<Rightarrow> False
                              | Some x \<Rightarrow> toISODate x = toISODate (startOfDay tz now))
                    (db_getAll_todos s)) \<and>
        totalCount r =
          length (filter (\<lambda>t. case dueDate t of None \<Rightarrow> False
                              | Some x \<Rightarrow> toISODate x = toISODate (startOfDay tz now))
                    (db_getAll_todos s))"
proof -
  define d where "d = toISODate (startOfDay tz now)"
  define cs0 where "cs0 = foldl (\<lambda>m cat. m(category_id cat \<mapsto> zeroCount)) Map.empty (categoryStore s)"
  define ts0 where "ts0 = foldl (\<lambda>m tag. m(tag \<mapsto> zeroCount)) Map.empty (getAllTags s)"
  obtain c' n' cs' ts' where
    f: "foldl (statsStep d) (0, 0, cs0, ts0) (db_getAll_todos s) = (c', n', cs', ts')"
    by (metis prod_cases4)
  note cnt = statsStep_counts [OF f]
  have "updateDailyStats tz now s =
          s\<lparr>statsStore := (statsStore s)(''stats_'' @ d \<mapsto>
             \<lparr>stats_id = ''stats_'' @ d, stats_date = startOfDay tz now,
              completedCount = c', totalCount = n', categoryStats = cs', tagStats = ts'\<rparr>)\<rparr>"
    using f by (simp add: updateDailyStats_def Let_def setHours0_def d_def cs0_def ts0_def)
  then show ?thesis using cnt unfolding d_def by (intro exI conjI) (assumption, simp_all)
qed


text \<open>
  C8 in Seoul at 10:00 on 2024-01-10 (01:00 UTC the same day), on the example store, where
  two todos are due on 2024-01-10 local time. The record is written under the key of
  2024-01-09, the UTC date of local midnight, and none under the key of 2024-01-10; its
  total is 1: it counts the todo due at 00:00 local time (15:00 UTC on 2024-01-09) and not
  the todo due at 09:00 local time (00:00 UTC on 2024-01-10).
\<close>

theorem updateDailyStats_seoul:
  "getFullYear kst ex_now = 2024 \<and> getMonth kst ex_now = 0 \<and> getDate kst ex_now = 10 \<and>
   toISODate ex_now = ''2024-01-10'' \<and>
   getTodosByDate kst ex_now ex_store = [ex_dated, ex_timed] \<and>
   statsStore (updateDailyStats kst ex_now ex_store) ''stats_2024-01-10'' = None \<and>
   map_option stats_id (statsStore (updateDailyStats kst ex_now ex_store) ''stats_2024-01-09'') =
     Some ''stats_2024-01-09'' \<and>
   map_option totalCount (statsStore (updateDailyStats kst ex_now ex_store) ''stats_2024-01-09'') =
     Some 1"
  by code_simp

end
